theory Spec2Isabelle
  imports Main "HOL-Library.AList"
begin

section \<open>The metadata database of ptmeta.py\<close>

text \<open>
  The module keeps two globals: \<open>meta_cache\<close>, a dict from chunk addresses to a dict of
  metadata, and \<open>backtrace_ignore\<close>, a set of function names. The inner dict is iterated
  in insertion order by \<open>get_metadata\<close>, so it is an association list: \<open>map_of\<close> is the
  lookup, \<open>map fst\<close> the keys in insertion order, \<open>AList.update\<close> the assignment
  \<open>d[k] = v\<close> (an existing key keeps its place). The outer dict is only looked up,
  assigned and deleted from in the functions embedded here, so it is a map.
\<close>

subsection \<open>Values\<close>

text \<open>
  What \<open>dbg.get_backtrace()\<close> returns is not part of this file. The code reads its
  \<open>["raw"]\<close> and \<open>["funcs"]\<close> entries only.
  Modelled from the spec: \<open>captureBacktrace() -> {raw text, ordered function names}\<close>.
\<close>

record backtrace =
  raw :: string
  funcs :: "string list"

text \<open>
  The Python objects that reach the database or the list returned by \<open>get_metadata\<close>:
  \<open>None\<close>, a string, a list of function names, the dict of a captured backtrace.
\<close>

datatype pyval = PyNone | PyStr string | PyList "string list" | PyDict backtrace

type_synonym metadata = "(string \<times> pyval) list"

datatype error = KeyError | TypeError | ValueError | FileNotFoundError

text \<open>
  The formatters of \<open>libptmalloc.frontend.printutils\<close> are outside this file; each is a
  name here. \<open>py_str\<close> is the builtin \<open>str\<close>, the default of \<open>get_metadata\<close>.
\<close>

datatype colorize_func =
    py_str
  | pu_red | pu_green | pu_yellow | pu_blue | pu_purple | pu_cyan | pu_gray
  | pu_light_red | pu_light_green | pu_light_yellow | pu_light_blue
  | pu_light_purple | pu_light_cyan | pu_light_gray
  | pu_white | pu_black

definition colorize_table :: "(string \<times> colorize_func) list" where
  "colorize_table =
    [(''red'', pu_red),
     (''green'', pu_green),
     (''yellow'', pu_yellow),
     (''blue'', pu_blue),
     (''purple'', pu_purple),
     (''cyan'', pu_cyan),
     (''gray'', pu_gray),
     (''lightred'', pu_light_red),
     (''lightgreen'', pu_light_green),
     (''lightyellow'', pu_light_yellow),
     (''lightblue'', pu_light_blue),
     (''lightpurple'', pu_light_purple),
     (''lightcyan'', pu_light_cyan),
     (''lightgray'', pu_light_gray),
     (''white'', pu_white),
     (''black'', pu_black)]"

definition METADATA_DB :: string where
  "METADATA_DB = ''metadata.pickle''"

subsection \<open>State\<close>

text \<open>
  The two module globals, and the pickle files on disk: \<open>save_metadata_to_file\<close> dumps
  a dict holding both globals, \<open>load_metadata_from_file\<close> reads it back.
\<close>

record state =
  meta_cache :: "int \<Rightarrow> metadata option"
  backtrace_ignore :: "string set"
  files :: "string \<Rightarrow> ((int \<Rightarrow> metadata option) \<times> string set) option"

definition save_metadata_to_file :: "string \<Rightarrow> state \<Rightarrow> state" where
  "save_metadata_to_file filename s =
    s\<lparr>files := (files s)(filename \<mapsto> (meta_cache s, backtrace_ignore s))\<rparr>"

text \<open>\<open>open(filename, "rb")\<close> raises when the file does not exist, before any assignment.\<close>

definition load_metadata_from_file :: "string \<Rightarrow> state \<Rightarrow> error + state" where
  "load_metadata_from_file filename s =
    (case files s filename of
       None \<Rightarrow> Inl FileNotFoundError
     | Some d \<Rightarrow> Inr (s\<lparr>meta_cache := fst d, backtrace_ignore := snd d\<rparr>))"

subsection \<open>Strings\<close>

text \<open>\<open>sep.join(xs)\<close>.\<close>

fun join :: "string \<Rightarrow> string list \<Rightarrow> string" where
  "join sep [] = []"
| "join sep [x] = x"
| "join sep (x # y # ys) = x @ sep @ join sep (y # ys)"

text \<open>\<open>s.split(c)\<close> for a one-character separator: always at least one part.\<close>

fun split_on :: "char \<Rightarrow> string \<Rightarrow> string list" where
  "split_on c [] = [[]]"
| "split_on c (x # xs) =
    (if x = c then [] # split_on c xs
     else (case split_on c xs of
             [] \<Rightarrow> [[x]]
           | p # ps \<Rightarrow> (x # p) # ps))"

text \<open>
  \<open>int(param)\<close> on a string, base 10: surrounding whitespace is stripped, one sign is
  allowed, then digits, with single underscores between digits. Anything else raises
  \<open>ValueError\<close> (here \<open>None\<close>). A \<open>char\<close> is a code point below 256 here. Of these,
  \<open>int\<close> strips tab to carriage return (9 to 13), the space, and the two spaces above
  127 (\<open>0x85\<close> and \<open>0xA0\<close>); the separators 28 to 31 are kept and make the string
  invalid. The only decimal digits below 256 are \<open>0\<close> to \<open>9\<close>.
\<close>

definition py_isspace :: "char \<Rightarrow> bool" where
  "py_isspace c = ((9 \<le> (of_char c :: nat) \<and> (of_char c :: nat) \<le> 13)
                   \<or> (of_char c :: nat) = 32
                   \<or> (of_char c :: nat) = 133
                   \<or> (of_char c :: nat) = 160)"

definition py_isdigit :: "char \<Rightarrow> bool" where
  "py_isdigit c = (48 \<le> (of_char c :: nat) \<and> (of_char c :: nat) \<le> 57)"

definition py_strip :: "string \<Rightarrow> string" where
  "py_strip s = rev (dropWhile py_isspace (rev (dropWhile py_isspace s)))"

fun py_digits :: "int \<Rightarrow> string \<Rightarrow> int option" where
  "py_digits n [] = Some n"
| "py_digits n (c # cs) =
    (if py_isdigit c then py_digits (10 * n + (int (of_char c) - 48)) cs
     else if c = CHR ''_'' then
       (case cs of
          [] \<Rightarrow> None
        | d # ds \<Rightarrow> if py_isdigit d then py_digits n cs else None)
     else None)"

definition py_unsigned :: "string \<Rightarrow> int option" where
  "py_unsigned s =
    (case s of
       [] \<Rightarrow> None
     | c # cs \<Rightarrow> if py_isdigit c then py_digits 0 s else None)"

definition py_int :: "string \<Rightarrow> int option" where
  "py_int s =
    (case py_strip s of
       [] \<Rightarrow> None
     | c # cs \<Rightarrow>
         if c = CHR ''-'' then map_option uminus (py_unsigned cs)
         else if c = CHR ''+'' then py_unsigned cs
         else py_unsigned (c # cs))"

text \<open>
  \<open>"%s" % v\<close>: a string is itself, \<open>None\<close> is the text \<open>None\<close>. For a list or a dict Python
  prints its \<open>repr\<close>; for the dict of a backtrace that text depends on the whole object
  returned by \<open>dbg.get_backtrace()\<close>, which is outside this file. The text is given by
  the parameter \<open>repr_of\<close>.
\<close>

definition py_format :: "(pyval \<Rightarrow> string) \<Rightarrow> pyval \<Rightarrow> string" where
  "py_format repr_of v =
    (case v of
       PyNone \<Rightarrow> ''None''
     | PyStr t \<Rightarrow> t
     | _ \<Rightarrow> repr_of v)"

subsection \<open>\<open>get_functions\<close>\<close>

text \<open>
  The loop of \<open>get_functions\<close>: \<open>L\<close> is the list built so far. The length is compared
  with \<open>max_len\<close> after the append only.
\<close>

fun get_functions_loop :: "string set \<Rightarrow> int option \<Rightarrow> string list \<Rightarrow> string list \<Rightarrow> string list" where
  "get_functions_loop ign max_len [] L = L"
| "get_functions_loop ign max_len (f # fs) L =
    (if f \<in> ign then get_functions_loop ign max_len fs L
     else if max_len \<noteq> None \<and> Some (int (length (L @ [f]))) = max_len then L @ [f]
     else get_functions_loop ign max_len fs (L @ [f]))"

text \<open>
  \<open>Inr None\<close> is the return value \<open>None\<close>. Subscripting a value that is not the dict of
  a backtrace with \<open>["funcs"]\<close> raises \<open>TypeError\<close>.
\<close>

definition get_functions :: "state \<Rightarrow> int \<Rightarrow> int option \<Rightarrow> error + string list option" where
  "get_functions s address max_len =
    (case meta_cache s address of
       None \<Rightarrow> Inr None
     | Some d \<Rightarrow>
        (case map_of d ''backtrace'' of
           None \<Rightarrow> Inr None
         | Some bt \<Rightarrow>
            (case bt of
               PyDict b \<Rightarrow>
                 Inr (Some (get_functions_loop (backtrace_ignore s) max_len (funcs b) []))
             | _ \<Rightarrow> Inl TypeError)))"

definition get_first_function :: "state \<Rightarrow> int \<Rightarrow> error + string list option" where
  "get_first_function s address = get_functions s address (Some 1)"

subsection \<open>\<open>get_metadata\<close>\<close>

text \<open>
  The second argument of \<open>get_metadata\<close> is a list of keys or the string \<open>"all"\<close>.
\<close>

datatype list_metadata = All_str | Keys "string list"

text \<open>The local variables of \<open>get_metadata\<close> that the loop updates.\<close>

record vars =
  out_L :: "pyval list"
  suffix :: string
  epilog :: string
  colorize_func :: colorize_func
  opened :: bool

text \<open>
  \<open>list(meta_cache[address].keys())\<close>, with \<open>"backtrace"\<close> removed (\<open>list.remove\<close> drops the
  first occurrence) and \<open>"backtrace:-1"\<close> appended at the end.
\<close>

definition all_keys :: "metadata \<Rightarrow> string list" where
  "all_keys d =
    (let list_metadata = map fst d
     in if ''backtrace'' \<in> set list_metadata
        then remove1 ''backtrace'' list_metadata @ [''backtrace:-1'']
        else list_metadata)"

text \<open>
  \<open>key, param = key.split(":")\<close> when the key holds a colon: with more than one colon
  the unpacking raises \<open>ValueError\<close>.
\<close>

definition split_key :: "string \<Rightarrow> error + (string \<times> string option)" where
  "split_key key =
    (if CHR '':'' \<in> set key then
       (case split_on (CHR '':'') key of
          [k, p] \<Rightarrow> Inr (k, Some p)
        | _ \<Rightarrow> Inl ValueError)
     else Inr (key, None))"

text \<open>The branch \<open>key == "backtrace"\<close>; \<open>x\<close> is \<open>meta_cache[address]["backtrace"]\<close>.\<close>

definition backtrace_branch :: "state \<Rightarrow> int \<Rightarrow> string option \<Rightarrow> pyval \<Rightarrow> vars \<Rightarrow> error + vars" where
  "backtrace_branch s address param x v =
    (case (case param of
             None \<Rightarrow> get_first_function s address
           | Some p \<Rightarrow>
              (case py_int p of
                 None \<Rightarrow> Inl ValueError
               | Some n \<Rightarrow> get_functions s address (Some n))) of
       Inl e \<Rightarrow> Inl e
     | Inr funcs_list \<Rightarrow>
        (case x of
           PyDict b \<Rightarrow>
             Inr (v\<lparr>suffix := suffix v @
                       (case funcs_list of
                          None \<Rightarrow> '' | N/A''
                        | Some [] \<Rightarrow> '' | filtered''
                        | Some fl \<Rightarrow> '' | '' @ join '','' fl),
                     epilog := epilog v @ raw b,
                     out_L := out_L v @ [case funcs_list of None \<Rightarrow> PyNone | Some fl \<Rightarrow> PyList fl],
                     opened := True\<rparr>)
         | _ \<Rightarrow> Inl TypeError))"

text \<open>
  The branch \<open>key == "color"\<close>: \<open>colorize_table[color]\<close> raises \<open>KeyError\<close> for a
  hashable value that is not a key of the table and \<open>TypeError\<close> for a list or a dict.
\<close>

definition color_branch :: "pyval \<Rightarrow> vars \<Rightarrow> error + vars" where
  "color_branch color v =
    (case color of
       PyStr c \<Rightarrow>
         (case map_of colorize_table c of
            None \<Rightarrow> Inl KeyError
          | Some f \<Rightarrow> Inr (v\<lparr>colorize_func := f\<rparr>))
     | PyNone \<Rightarrow> Inl KeyError
     | _ \<Rightarrow> Inl TypeError)"

text \<open>One iteration of \<open>for key in list_metadata\<close>.\<close>

definition get_metadata_key :: "(pyval \<Rightarrow> string) \<Rightarrow> state \<Rightarrow> int \<Rightarrow> string \<Rightarrow> vars \<Rightarrow> error + vars" where
  "get_metadata_key repr_of s address key0 v =
    (case split_key key0 of
       Inl e \<Rightarrow> Inl e
     | Inr (key, param) \<Rightarrow>
        (case meta_cache s address of
           None \<Rightarrow> Inl KeyError
         | Some d \<Rightarrow>
            (case map_of d key of
               None \<Rightarrow>
                 if key \<noteq> ''color'' then
                   Inr (v\<lparr>suffix := suffix v @ '' | N/A'',
                           epilog := epilog v @ [CHR 0x27] @ key @ ''' key not found in metadata database\<newline>'',
                           opened := True,
                           out_L := out_L v @ [PyNone]\<rparr>)
                 else Inr v
             | Some x \<Rightarrow>
                 if key = ''backtrace'' then backtrace_branch s address param x v
                 else if key = ''color'' then color_branch x v
                 else
                   Inr (v\<lparr>suffix := suffix v @ '' | '' @ py_format repr_of x,
                           epilog := epilog v @ py_format repr_of x @ ''\<newline>'',
                           out_L := out_L v @ [x],
                           opened := True\<rparr>))))"

fun get_metadata_loop :: "(pyval \<Rightarrow> string) \<Rightarrow> state \<Rightarrow> int \<Rightarrow> string list \<Rightarrow> vars \<Rightarrow> error + vars" where
  "get_metadata_loop repr_of s address [] v = Inr v"
| "get_metadata_loop repr_of s address (key # keys) v =
    (case get_metadata_key repr_of s address key v of
       Inl e \<Rightarrow> Inl e
     | Inr v' \<Rightarrow> get_metadata_loop repr_of s address keys v')"

text \<open>
  The result is the tuple \<open>(L, suffix, epilog, colorize_func)\<close>; its first component
  is \<open>None\<close> when the address is not in \<open>meta_cache\<close>.
\<close>

definition get_metadata ::
  "(pyval \<Rightarrow> string) \<Rightarrow> state \<Rightarrow> int \<Rightarrow> list_metadata
     \<Rightarrow> error + (pyval list option \<times> string \<times> string \<times> colorize_func)" where
  "get_metadata repr_of s address list_metadata =
    (case meta_cache s address of
       None \<Rightarrow>
         Inr (None, [], ''chunk address not found in metadata database\<newline>'', py_str)
     | Some d \<Rightarrow>
        (case get_metadata_loop repr_of s address
                (case list_metadata of All_str \<Rightarrow> all_keys d | Keys ks \<Rightarrow> ks)
                \<lparr>out_L = [], suffix = [], epilog = [], colorize_func = py_str, opened = False\<rparr> of
           Inl e \<Rightarrow> Inl e
         | Inr v \<Rightarrow>
             Inr (Some (out_L v),
                  (if opened v then suffix v @ '' |'' else suffix v),
                  epilog v,
                  colorize_func v)))"

subsection \<open>The mutators\<close>

text \<open>
  Each returns the messages given to \<open>pu.print_error\<close> and the new state. The banners
  printed under \<open>verbose\<close> are not part of either. \<open>val\<close> is \<open>None\<close> when the command
  line gave no value (\<open>nargs="?"\<close>).
\<close>

definition unsupported_color :: string where
  "unsupported_color =
    ''ERROR: Unsupported color. Need one of: '' @ join '', '' (map fst colorize_table)"

definition add_metadata :: "backtrace \<Rightarrow> int \<Rightarrow> string \<Rightarrow> string option \<Rightarrow> state \<Rightarrow> string list \<times> state" where
  "add_metadata captured address key val s =
    (let store = (\<lambda>result.
           (let d = (case meta_cache s address of None \<Rightarrow> [] | Some d \<Rightarrow> d)
            in s\<lparr>meta_cache := (meta_cache s)(address \<mapsto> AList.update key result d)\<rparr>));
         result = (case val of None \<Rightarrow> PyNone | Some t \<Rightarrow> PyStr t)
     in if key = ''backtrace'' then ([], store (PyDict captured))
        else if key = ''color'' then
          (if (case val of None \<Rightarrow> True | Some c \<Rightarrow> map_of colorize_table c = None)
           then ([unsupported_color], s)
           else ([], store result))
        else ([], store result))"

definition delete_metadata :: "int \<Rightarrow> state \<Rightarrow> state" where
  "delete_metadata address s =
    (if meta_cache s address = None then s
     else s\<lparr>meta_cache := (meta_cache s)(address := None)\<rparr>)"

definition configure_metadata :: "string \<Rightarrow> string \<Rightarrow> string list \<Rightarrow> state \<Rightarrow> string list \<times> state" where
  "configure_metadata feature key vals s =
    (if key = ''backtrace'' then
       (if feature = ''ignore'' then
          ([], s\<lparr>backtrace_ignore := backtrace_ignore s \<union> set vals\<rparr>)
        else ([''WARNING: Unsupported feature''], s))
     else ([''WARNING: Unsupported key''], s))"

subsection \<open>\<open>invoke\<close>\<close>

text \<open>
  The namespace built by the argument parser: the chosen sub-command with its
  positional arguments, and the two flags \<open>-S\<close> and \<open>-L\<close>. \<open>List\<close> carries the optional
  address and the optional \<open>-M\<close> string.
\<close>

datatype action =
    Add string string "string option"
  | Del string
  | List "string option" "string option"
  | Config string string "string list"

record args =
  action :: "action option"
  save :: bool
  load :: bool

text \<open>The debugger object \<open>self.dbg\<close>, outside this file, at the time of one command.\<close>

record debugger =
  parse_address :: "string \<Rightarrow> int list"
  get_backtrace :: backtrace

text \<open>
  \<open>list_metadata\<close> reads the globals and prints; it calls \<open>pu.print_error\<close> nowhere and
  assigns nothing. An exception (a missing pickle file) ends the command with the
  globals as they were.
\<close>

definition invoke :: "debugger \<Rightarrow> args \<Rightarrow> state \<Rightarrow> string list \<times> state" where
  "invoke dbg a s =
    (if action a = None \<and> \<not> save a \<and> \<not> load a then ([''WARNING: requires an action''], s)
     else
      (case action a of
         Some (List address_arg metadata_arg) \<Rightarrow>
           (case address_arg of
              None \<Rightarrow> ([], s)
            | Some t \<Rightarrow>
               (if parse_address dbg t = [] then ([''WARNING: No valid address supplied''], s)
                else ([], s)))
       | Some (Del t) \<Rightarrow>
           (case parse_address dbg t of
              [] \<Rightarrow> ([''WARNING: No valid address supplied''], s)
            | address # _ \<Rightarrow> ([], delete_metadata address s))
       | Some (Config feature key vals) \<Rightarrow> configure_metadata feature key vals s
       | Some (Add t key val) \<Rightarrow>
           (case parse_address dbg t of
              [] \<Rightarrow> ([''WARNING: No valid address supplied''], s)
            | address # _ \<Rightarrow> add_metadata (get_backtrace dbg) address key val s)
       | None \<Rightarrow>
           if save a then ([], save_metadata_to_file METADATA_DB s)
           else if load a then
             (case load_metadata_from_file METADATA_DB s of
                Inl e \<Rightarrow> ([], s)
              | Inr s' \<Rightarrow> ([], s'))
           else ([], s)))"

text \<open>
  A session: the commands are run one after the other, each with the debugger as it is
  at that time.
\<close>

fun run :: "(debugger \<times> args) list \<Rightarrow> state \<Rightarrow> state" where
  "run [] s = s"
| "run (c # cs) s = run cs (snd (invoke (fst c) (snd c) s))"

subsection \<open>The specification's resolver\<close>

text \<open>
  \<open>resolve(record, maxFrames)\<close> in the specification's words: drop every frame present
  in the ignore set, keep the order, then truncate to the first \<open>maxFrames\<close> entries,
  where unlimited (no bound, or \<open>-1\<close>) means no truncation.
\<close>

definition resolve_spec :: "string set \<Rightarrow> int option \<Rightarrow> string list \<Rightarrow> string list" where
  "resolve_spec ignore_set max_frames frames =
    (let kept = filter (\<lambda>f. f \<notin> ignore_set) frames
     in case max_frames of
          None \<Rightarrow> kept
        | Some m \<Rightarrow> if m = - 1 then kept else take (nat m) kept)"

subsection \<open>Sample inputs\<close>

text \<open>
  A value for the parameter \<open>repr_of\<close> where a statement is evaluated at a concrete
  input. The general theorems hold for every \<open>repr_of\<close>.
\<close>

definition sample_repr :: "pyval \<Rightarrow> string" where
  "sample_repr v = ''<object>''"

definition empty_state :: state where
  "empty_state = \<lparr>meta_cache = Map.empty, backtrace_ignore = {}, files = Map.empty\<rparr>"

definition backtrace_0x20 :: backtrace where
  "backtrace_0x20 = \<lparr>raw = ''#0 f1 #1 f2 #2 f3'', funcs = [''f1'', ''f2'', ''f3'']\<rparr>"

text \<open>The record at \<open>0x20\<close> of the specification's scenario, with \<open>f2\<close> ignored.\<close>

definition state_0x20 :: state where
  "state_0x20 =
    \<lparr>meta_cache = [32 \<mapsto> [(''backtrace'', PyDict backtrace_0x20)]],
     backtrace_ignore = {''f2''},
     files = Map.empty\<rparr>"

text \<open>A debugger that resolves \<open>0x10\<close> and \<open>0x20\<close> and captures the sample backtrace.\<close>

definition sample_dbg :: debugger where
  "sample_dbg =
    \<lparr>parse_address = (\<lambda>t. if t = ''0x10'' then [16] else if t = ''0x20'' then [32] else []),
     get_backtrace = backtrace_0x20\<rparr>"

text \<open>The state after \<open>add(0x10, "color", "green")\<close> on the empty database.\<close>

definition state_0x10_green :: state where
  "state_0x10_green = snd (add_metadata backtrace_0x20 16 ''color'' (Some ''green'') empty_state)"

subsection \<open>Well-formed records\<close>

text \<open>
  What \<open>add_metadata\<close> stores under the two special keys: a palette name under
  \<open>color\<close>, a captured backtrace under \<open>backtrace\<close>. For any other value \<open>get_metadata\<close>
  raises.
\<close>

definition color_ok :: "metadata \<Rightarrow> bool" where
  "color_ok d =
    (case map_of d ''color'' of
       None \<Rightarrow> True
     | Some (PyStr c) \<Rightarrow> map_of colorize_table c \<noteq> None
     | Some _ \<Rightarrow> False)"

definition backtrace_ok :: "metadata \<Rightarrow> bool" where
  "backtrace_ok d =
    (case map_of d ''backtrace'' of
       None \<Rightarrow> True
     | Some (PyDict b) \<Rightarrow> True
     | Some _ \<Rightarrow> False)"

text \<open>The commands that reach \<open>load_metadata_from_file\<close>: no action, no \<open>-S\<close>, and \<open>-L\<close>.\<close>

definition runs_load :: "args \<Rightarrow> bool" where
  "runs_load a = (action a = None \<and> \<not> save a \<and> load a)"

subsection \<open>The specification's reading of \<open>all\<close>\<close>

text \<open>
  \<open>query(a, "all")\<close> in the specification's words: every field of the record, in
  insertion order, a backtrace resolved without truncation.
\<close>

definition all_fields_spec :: "string set \<Rightarrow> metadata \<Rightarrow> pyval list" where
  "all_fields_spec ignore_set d =
    map (\<lambda>kv. if fst kv = ''backtrace''
              then (case snd kv of
                      PyDict b \<Rightarrow> PyList (resolve_spec ignore_set None (funcs b))
                    | x \<Rightarrow> x)
              else snd kv) d"

text \<open>The record at \<open>0x20\<close> with a tag added after the backtrace, and then a color.\<close>

definition state_0x20_tagged :: state where
  "state_0x20_tagged = snd (add_metadata backtrace_0x20 32 ''tag'' (Some ''hello'') state_0x20)"

definition state_0x20_colored :: state where
  "state_0x20_colored = snd (add_metadata backtrace_0x20 32 ''color'' (Some ''green'') state_0x20_tagged)"

text \<open>
  Four commands: \<open>ptmeta config ignore backtrace f1\<close>, the same for \<open>f2\<close>, \<open>ptmeta -S\<close>
  and \<open>ptmeta -L\<close>.
\<close>

definition cmd_ignore_f1 :: "debugger \<times> args" where
  "cmd_ignore_f1 =
    (sample_dbg, \<lparr>action = Some (Config ''ignore'' ''backtrace'' [''f1'']), save = False, load = False\<rparr>)"

definition cmd_ignore_f2 :: "debugger \<times> args" where
  "cmd_ignore_f2 =
    (sample_dbg, \<lparr>action = Some (Config ''ignore'' ''backtrace'' [''f2'']), save = False, load = False\<rparr>)"

definition cmd_save :: "debugger \<times> args" where
  "cmd_save = (sample_dbg, \<lparr>action = None, save = True, load = False\<rparr>)"

definition cmd_load :: "debugger \<times> args" where
  "cmd_load = (sample_dbg, \<lparr>action = None, save = False, load = True\<rparr>)"

subsection \<open>Well-formed states\<close>

text \<open>
  A record is well formed when its keys are distinct (it is a dict) and its two special
  keys hold what \<open>add_metadata\<close> stores there; a state is well formed when all records
  of \<open>meta_cache\<close> and of every saved snapshot are.
\<close>

definition record_ok :: "metadata \<Rightarrow> bool" where
  "record_ok d = (distinct (map fst d) \<and> color_ok d \<and> backtrace_ok d)"

definition cache_ok :: "(int \<Rightarrow> metadata option) \<Rightarrow> bool" where
  "cache_ok mc = (\<forall>a d. mc a = Some d \<longrightarrow> record_ok d)"

definition state_ok :: "state \<Rightarrow> bool" where
  "state_ok s = (cache_ok (meta_cache s) \<and> (\<forall>f snap. files s f = Some snap \<longrightarrow> cache_ok (fst snap)))"

section \<open>Properties\<close>

subsection \<open>The loop of \<open>get_functions\<close>\<close>

lemma get_functions_loop_unlimited:
  "(\<And>m. max_len = Some m \<Longrightarrow> m \<le> int (length L)) \<Longrightarrow>
     get_functions_loop ign max_len fs L = L @ filter (\<lambda>f. f \<notin> ign) fs"
proof (induction fs arbitrary: L)
  case Nil
  then show ?case by simp
next
  case (Cons f fs)
  have step: "get_functions_loop ign max_len fs (L @ [f]) = (L @ [f]) @ filter (\<lambda>f. f \<notin> ign) fs"
    using Cons.prems by (intro Cons.IH) fastforce
  have neq: "Some (int (length (L @ [f]))) \<noteq> max_len"
    using Cons.prems by fastforce
  show ?case
  proof (cases "f \<in> ign")
    case True
    then show ?thesis using Cons.IH[of L] Cons.prems by simp
  next
    case False
    then show ?thesis using step neq by simp
  qed
qed

lemma get_functions_loop_limited:
  "int (length L) < m \<Longrightarrow>
     get_functions_loop ign (Some m) fs L = L @ take (nat m - length L) (filter (\<lambda>f. f \<notin> ign) fs)"
proof (induction fs arbitrary: L)
  case Nil
  then show ?case by simp
next
  case (Cons f fs)
  show ?case
  proof (cases "f \<in> ign")
    case True
    then show ?thesis using Cons.IH[of L] Cons.prems by simp
  next
    case notin: False
    show ?thesis
    proof (cases "int (length L) + 1 = m")
      case True
      then have "nat m - length L = Suc 0" by linarith
      then show ?thesis using notin True by simp
    next
      case False
      then have lt: "int (length (L @ [f])) < m" using Cons.prems by simp
      have "nat m - length L = Suc (nat m - length (L @ [f]))" using lt by simp
      then show ?thesis using notin False Cons.IH[OF lt] by simp
    qed
  qed
qed

text \<open>
  C2 (amended). For a record holding a backtrace, \<open>get_functions\<close> returns the frames
  that are not in \<open>backtrace_ignore\<close>, in their original order, cut to the first
  \<open>max_len\<close> of them when \<open>max_len\<close> is at least 1, and all of them when \<open>max_len\<close> is
  \<open>None\<close>, \<open>-1\<close> or any other value below 1.
\<close>

theorem get_functions_filters_then_truncates:
  assumes "meta_cache s address = Some d"
    and "map_of d ''backtrace'' = Some (PyDict b)"
  shows "get_functions s address max_len =
           Inr (Some (case max_len of
                        None \<Rightarrow> filter (\<lambda>f. f \<notin> backtrace_ignore s) (funcs b)
                      | Some m \<Rightarrow>
                          if 1 \<le> m then take (nat m) (filter (\<lambda>f. f \<notin> backtrace_ignore s) (funcs b))
                          else filter (\<lambda>f. f \<notin> backtrace_ignore s) (funcs b)))"
proof (cases max_len)
  case None
  then show ?thesis
    using assms get_functions_loop_unlimited[of None "[]" "backtrace_ignore s" "funcs b"]
    by (simp add: get_functions_def)
next
  case (Some m)
  show ?thesis
  proof (cases "1 \<le> m")
    case True
    then show ?thesis
      using assms Some get_functions_loop_limited[of "[]" m "backtrace_ignore s" "funcs b"]
      by (simp add: get_functions_def)
  next
    case False
    then show ?thesis
      using assms Some get_functions_loop_unlimited[of "Some m" "[]" "backtrace_ignore s" "funcs b"]
      by (simp add: get_functions_def)
  qed
qed

text \<open>
  The scenario of the specification: frames \<open>f1, f2, f3\<close> with \<open>f2\<close> ignored and a
  bound of 2 give \<open>f1, f3\<close>.
\<close>

theorem get_functions_filters_then_truncates_witness:
  "meta_cache state_0x20 32 = Some [(''backtrace'', PyDict backtrace_0x20)]
   \<and> map_of [(''backtrace'', PyDict backtrace_0x20)] ''backtrace'' = Some (PyDict backtrace_0x20)
   \<and> get_functions state_0x20 32 (Some 2) = Inr (Some [''f1'', ''f3''])"
proof -
  have a: "meta_cache state_0x20 32 = Some [(''backtrace'', PyDict backtrace_0x20)]"
    by (simp add: state_0x20_def)
  have b: "map_of [(''backtrace'', PyDict backtrace_0x20)] ''backtrace'' = Some (PyDict backtrace_0x20)"
    by simp
  show ?thesis
    using a b get_functions_filters_then_truncates[OF a b, of "Some 2"]
    by (simp add: state_0x20_def backtrace_0x20_def)
qed

text \<open>
  C2 as stated fails for a bound of 0: the length is compared after the append, so no
  prefix of length 0 is ever returned and the whole filtered list comes back.
\<close>

theorem get_functions_zero_counterexample:
  "get_functions state_0x20 32 (Some 0)
     \<noteq> Inr (Some (resolve_spec {''f2''} (Some 0) [''f1'', ''f2'', ''f3'']))"
  by (simp add: get_functions_def state_0x20_def backtrace_0x20_def resolve_spec_def)

text \<open>
  C10. When the address has a record and the record has the key \<open>"backtrace"\<close>,
  neither \<open>get_functions\<close> nor \<open>get_first_function\<close> returns \<open>None\<close>; so whenever the
  backtrace branch of \<open>get_metadata\<close> completes for such a record, it appends a list
  (never \<open>None\<close>) to \<open>L\<close> and either \<open>" | filtered"\<close> or the joined names (never
  \<open>" | N/A"\<close>) to the suffix.
\<close>

theorem present_backtrace_never_absent:
  assumes "meta_cache s address = Some d"
    and "map_of d ''backtrace'' = Some x"
  shows "get_functions s address max_len \<noteq> Inr None
       \<and> get_first_function s address \<noteq> Inr None
       \<and> (\<forall>v v'. backtrace_branch s address param x v = Inr v' \<longrightarrow>
            (\<exists>fl. out_L v' = out_L v @ [PyList fl]
                 \<and> suffix v' = suffix v @ (if fl = [] then '' | filtered'' else '' | '' @ join '','' fl)))"
proof -
  have gf: "get_functions s address ml \<noteq> Inr None" for ml
    using assms by (simp add: get_functions_def split: pyval.splits)
  have br: "\<exists>fl. out_L v' = out_L v @ [PyList fl]
                 \<and> suffix v' = suffix v @ (if fl = [] then '' | filtered'' else '' | '' @ join '','' fl)"
    if run: "backtrace_branch s address param x v = Inr v'" for v v'
  proof -
    define R where "R = (case param of
             None \<Rightarrow> get_first_function s address
           | Some p \<Rightarrow>
              (case py_int p of
                 None \<Rightarrow> Inl ValueError
               | Some n \<Rightarrow> get_functions s address (Some n)))"
    have not_absent: "R \<noteq> Inr None"
      using gf by (simp add: R_def get_first_function_def split: option.splits)
    have run': "(case R of
       Inl e \<Rightarrow> Inl e
     | Inr funcs_list \<Rightarrow>
        (case x of
           PyDict b \<Rightarrow>
             Inr (v\<lparr>suffix := suffix v @
                       (case funcs_list of
                          None \<Rightarrow> '' | N/A''
                        | Some [] \<Rightarrow> '' | filtered''
                        | Some fl \<Rightarrow> '' | '' @ join '','' fl),
                     epilog := epilog v @ raw b,
                     out_L := out_L v @ [case funcs_list of None \<Rightarrow> PyNone | Some fl \<Rightarrow> PyList fl],
                     opened := True\<rparr>)
         | _ \<Rightarrow> Inl TypeError)) = Inr v'"
      using run unfolding backtrace_branch_def R_def .
    show ?thesis
    proof (cases R)
      case (Inl e)
      then show ?thesis using run' by simp
    next
      case (Inr funcs_list)
      then obtain fl where fl: "funcs_list = Some fl"
        using not_absent by (cases funcs_list) auto
      show ?thesis
      proof (cases x)
        case (PyDict b)
        then have "v' = v\<lparr>suffix := suffix v @
                       (case fl of [] \<Rightarrow> '' | filtered'' | _ \<Rightarrow> '' | '' @ join '','' fl),
                     epilog := epilog v @ raw b,
                     out_L := out_L v @ [PyList fl],
                     opened := True\<rparr>"
          using run' Inr fl by (simp split: list.splits)
        then show ?thesis by (cases fl) simp_all
      qed (use run' Inr in simp_all)
    qed
  qed
  show ?thesis using gf br by (simp add: get_first_function_def)
qed

theorem present_backtrace_never_absent_witness:
  "meta_cache state_0x20 32 = Some [(''backtrace'', PyDict backtrace_0x20)]
   \<and> map_of [(''backtrace'', PyDict backtrace_0x20)] ''backtrace'' = Some (PyDict backtrace_0x20)
   \<and> get_functions state_0x20 32 (Some 2) \<noteq> Inr None
   \<and> get_first_function state_0x20 32 \<noteq> Inr None
   \<and> backtrace_branch state_0x20 32 None (PyDict backtrace_0x20)
        \<lparr>out_L = [], suffix = [], epilog = [], colorize_func = py_str, opened = False\<rparr>
       = Inr \<lparr>out_L = [PyList [''f1'']], suffix = '' | f1'', epilog = ''#0 f1 #1 f2 #2 f3'',
              colorize_func = py_str, opened = True\<rparr>"
proof -
  have a: "meta_cache state_0x20 32 = Some [(''backtrace'', PyDict backtrace_0x20)]"
    by (simp add: state_0x20_def)
  have b: "map_of [(''backtrace'', PyDict backtrace_0x20)] ''backtrace'' = Some (PyDict backtrace_0x20)"
    by simp
  have c: "backtrace_branch state_0x20 32 None (PyDict backtrace_0x20)
        \<lparr>out_L = [], suffix = [], epilog = [], colorize_func = py_str, opened = False\<rparr>
       = Inr \<lparr>out_L = [PyList [''f1'']], suffix = '' | f1'', epilog = ''#0 f1 #1 f2 #2 f3'',
              colorize_func = py_str, opened = True\<rparr>"
    by (simp add: backtrace_branch_def get_first_function_def get_functions_def
        state_0x20_def backtrace_0x20_def)
  show ?thesis
    using a b c present_backtrace_never_absent[OF a b, of "Some 2" None]
    by simp
qed

subsection \<open>Unknown addresses\<close>

text \<open>
  C5. For an address that is not in \<open>meta_cache\<close>, and every second argument,
  \<open>get_metadata\<close> returns \<open>None\<close> for the list, the empty suffix, the epilog
  \<open>chunk address not found in metadata database\<close> with its newline, and \<open>str\<close>; it
  raises nothing.
\<close>

theorem get_metadata_unknown_address:
  "meta_cache s address = None \<Longrightarrow>
     get_metadata repr_of s address list_metadata =
       Inr (None, [], ''chunk address not found in metadata database\<newline>'', py_str)"
  by (simp add: get_metadata_def)

theorem get_metadata_unknown_address_witness:
  "meta_cache empty_state 48 = None
   \<and> get_metadata sample_repr empty_state 48 (Keys [''tag'', ''backtrace:3'']) =
       Inr (None, [], ''chunk address not found in metadata database\<newline>'', py_str)"
proof -
  have a: "meta_cache empty_state 48 = None"
    by (simp add: empty_state_def)
  show ?thesis
    using a get_metadata_unknown_address[OF a, of sample_repr "Keys [''tag'', ''backtrace:3'']"]
    by simp
qed

subsection \<open>\<open>configure_metadata\<close>\<close>

text \<open>
  C6. \<open>configure_metadata\<close> adds the values to \<open>backtrace_ignore\<close> when the feature is
  \<open>ignore\<close> and the key is \<open>backtrace\<close>. For every other feature and key it reports
  an error (unsupported feature under the key \<open>backtrace\<close>, unsupported key otherwise)
  and returns the state as it was.
\<close>

theorem configure_metadata_ignore_backtrace_only:
  "(feature = ''ignore'' \<and> key = ''backtrace'' \<longrightarrow>
      configure_metadata feature key vals s
        = ([], s\<lparr>backtrace_ignore := backtrace_ignore s \<union> set vals\<rparr>))
   \<and> (feature \<noteq> ''ignore'' \<and> key = ''backtrace'' \<longrightarrow>
      configure_metadata feature key vals s = ([''WARNING: Unsupported feature''], s))
   \<and> (key \<noteq> ''backtrace'' \<longrightarrow>
      configure_metadata feature key vals s = ([''WARNING: Unsupported key''], s))"
  by (simp add: configure_metadata_def)

theorem configure_metadata_ignore_backtrace_only_witness:
  "configure_metadata ''ignore'' ''backtrace'' [''f2'', ''f3''] state_0x20
     = ([], state_0x20\<lparr>backtrace_ignore := {''f2'', ''f3''}\<rparr>)
   \<and> configure_metadata ''ignore'' ''color'' [''f3''] state_0x20
       = ([''WARNING: Unsupported key''], state_0x20)
   \<and> configure_metadata ''hide'' ''backtrace'' [''f3''] state_0x20
       = ([''WARNING: Unsupported feature''], state_0x20)"
proof -
  have bi: "backtrace_ignore state_0x20 \<union> set [''f2'', ''f3''] = {''f2'', ''f3''}"
    by (auto simp: state_0x20_def)
  have k: "''color'' \<noteq> ''backtrace''" and f: "''hide'' \<noteq> ''ignore''"
    by simp_all
  show ?thesis
    using configure_metadata_ignore_backtrace_only[of "''ignore''" "''backtrace''" "[''f2'', ''f3'']" state_0x20]
      configure_metadata_ignore_backtrace_only[of "''ignore''" "''color''" "[''f3'']" state_0x20]
      configure_metadata_ignore_backtrace_only[of "''hide''" "''backtrace''" "[''f3'']" state_0x20]
      bi
    by simp
qed

subsection \<open>Colors\<close>

lemma colorize_table_keys:
  "map fst colorize_table =
     [''red'', ''green'', ''yellow'', ''blue'', ''purple'', ''cyan'', ''gray'',
      ''lightred'', ''lightgreen'', ''lightyellow'', ''lightblue'', ''lightpurple'',
      ''lightcyan'', ''lightgray'', ''white'', ''black'']"
  by (simp add: colorize_table_def)

lemma not_in_table: "(map_of colorize_table c = None) = (c \<notin> set (map fst colorize_table))"
  by (simp add: map_of_eq_None_iff)

text \<open>
  C4. The palette has 16 entries, and for every address and every value that is not
  one of its names (no value at all included), \<open>add_metadata\<close> with the key \<open>color\<close>
  reports the unsupported-color error and returns the state as it was.
\<close>

theorem add_metadata_rejects_unknown_color:
  "length colorize_table = 16
   \<and> (val \<notin> Some ` set (map fst colorize_table) \<longrightarrow>
        add_metadata captured address ''color'' val s = ([unsupported_color], s))"
proof -
  have "length colorize_table = 16" by (simp add: colorize_table_def)
  moreover have "add_metadata captured address ''color'' val s = ([unsupported_color], s)"
    if "val \<notin> Some ` set (map fst colorize_table)"
  proof (cases val)
    case None
    then show ?thesis by (simp add: add_metadata_def)
  next
    case (Some c)
    then have "map_of colorize_table c = None"
      using that unfolding not_in_table by blast
    then show ?thesis using Some by (simp add: add_metadata_def)
  qed
  ultimately show ?thesis by blast
qed

lemma state_0x10_green_eq:
  "state_0x10_green = empty_state\<lparr>meta_cache := [16 \<mapsto> [(''color'', PyStr ''green'')]]\<rparr>"
  by (simp add: state_0x10_green_def add_metadata_def empty_state_def colorize_table_def)

text \<open>
  The scenario of the specification: after \<open>add(0x10, "color", "green")\<close>, adding the
  color \<open>ultraviolet\<close> is rejected and \<open>green\<close> stays; a rejected color creates no
  record for a new address either.
\<close>

theorem add_metadata_rejects_unknown_color_witness:
  "Some ''ultraviolet'' \<notin> Some ` set (map fst colorize_table)
   \<and> meta_cache state_0x10_green 16 = Some [(''color'', PyStr ''green'')]
   \<and> add_metadata backtrace_0x20 16 ''color'' (Some ''ultraviolet'') state_0x10_green
       = ([unsupported_color], state_0x10_green)
   \<and> add_metadata backtrace_0x20 48 ''color'' None state_0x10_green
       = ([unsupported_color], state_0x10_green)"
proof -
  have a: "Some ''ultraviolet'' \<notin> Some ` set (map fst colorize_table)"
    unfolding colorize_table_keys by simp
  have b: "None \<notin> Some ` set (map fst colorize_table)"
    by blast
  have c: "meta_cache state_0x10_green 16 = Some [(''color'', PyStr ''green'')]"
    by (simp add: state_0x10_green_eq)
  show ?thesis
    using a b c
      add_metadata_rejects_unknown_color[of "Some ''ultraviolet''" backtrace_0x20 16 state_0x10_green]
      add_metadata_rejects_unknown_color[of None backtrace_0x20 48 state_0x10_green]
    by simp
qed

subsection \<open>The \<open>add\<close> command without a value\<close>

text \<open>
  C7. The claim is that \<open>add\<close> with a key other than \<open>backtrace\<close> and no value aborts
  and leaves the database unchanged. The parser makes the value optional for every
  key, and \<open>add_metadata\<close> checks it for the key \<open>color\<close> only: \<open>ptmeta add 0x10 tag\<close>
  on the empty database reports nothing and stores \<open>None\<close> under \<open>tag\<close>.
\<close>

theorem add_without_value_stores_None:
  "invoke sample_dbg \<lparr>action = Some (Add ''0x10'' ''tag'' None), save = False, load = False\<rparr> empty_state
     = ([], empty_state\<lparr>meta_cache := [16 \<mapsto> [(''tag'', PyNone)]]\<rparr>)"
  by (simp add: invoke_def sample_dbg_def add_metadata_def empty_state_def)

subsection \<open>One key of \<open>get_metadata\<close>\<close>

lemma split_key_no_colon: "CHR '':'' \<notin> set key \<Longrightarrow> split_key key = Inr (key, None)"
  by (simp add: split_key_def)

lemma split_key_color: "split_key ''color'' = Inr (''color'', None)"
  by (simp add: split_key_def)

lemma split_key_backtrace_all: "split_key ''backtrace:-1'' = Inr (''backtrace'', Some ''-1'')"
  by (simp add: split_key_def)

lemma py_int_minus_one: "py_int ''-1'' = Some (- 1)"
  by (simp add: py_int_def py_strip_def py_isspace_def py_unsigned_def py_isdigit_def)

lemma get_metadata_key_plain:
  assumes "meta_cache s address = Some d"
    and "CHR '':'' \<notin> set key"
    and "key \<noteq> ''backtrace''" and "key \<noteq> ''color''"
    and "map_of d key = Some x"
  shows "get_metadata_key repr_of s address key v =
           Inr (v\<lparr>suffix := suffix v @ '' | '' @ py_format repr_of x,
                   epilog := epilog v @ py_format repr_of x @ ''\<newline>'',
                   out_L := out_L v @ [x],
                   opened := True\<rparr>)"
  using assms by (simp add: get_metadata_key_def split_key_no_colon)

lemma get_metadata_key_color_absent:
  assumes "meta_cache s address = Some d" and "map_of d ''color'' = None"
  shows "get_metadata_key repr_of s address ''color'' v = Inr v"
  using assms by (simp add: get_metadata_key_def split_key_color)

lemma get_metadata_key_color_present:
  assumes "meta_cache s address = Some d"
    and "map_of d ''color'' = Some (PyStr c)"
    and "map_of colorize_table c = Some f"
  shows "get_metadata_key repr_of s address ''color'' v = Inr (v\<lparr>colorize_func := f\<rparr>)"
  using assms by (simp add: get_metadata_key_def split_key_color color_branch_def)

lemma get_metadata_key_color_stored:
  assumes "meta_cache s address = Some d"
    and "color_ok d"
    and "map_of d ''color'' \<noteq> None"
  shows "get_metadata_key repr_of s address ''color'' v =
           Inr (v\<lparr>colorize_func :=
                  (case map_of d ''color'' of
                     Some (PyStr c) \<Rightarrow> (case map_of colorize_table c of Some f \<Rightarrow> f | None \<Rightarrow> py_str)
                   | _ \<Rightarrow> py_str)\<rparr>)"
proof -
  obtain c f where c: "map_of d ''color'' = Some (PyStr c)" and f: "map_of colorize_table c = Some f"
    using assms(2,3) by (auto simp: color_ok_def split: option.splits pyval.splits)
  show ?thesis
    using get_metadata_key_color_present[OF assms(1) c f, of repr_of v] c f by simp
qed

subsection \<open>The loop of \<open>get_metadata\<close>\<close>

lemma get_metadata_loop_append:
  "get_metadata_loop repr_of s address (xs @ ys) v =
     (case get_metadata_loop repr_of s address xs v of
        Inl e \<Rightarrow> Inl e
      | Inr v' \<Rightarrow> get_metadata_loop repr_of s address ys v')"
  by (induction xs arbitrary: v) (simp_all split: sum.splits)

lemma get_metadata_loop_stored_keys:
  assumes "meta_cache s address = Some d"
    and "color_ok d"
    and "\<forall>k \<in> set ks. CHR '':'' \<notin> set k \<and> k \<noteq> ''backtrace'' \<and> map_of d k \<noteq> None"
  shows "get_metadata_loop repr_of s address ks v =
           Inr (v\<lparr>out_L := out_L v @ map (\<lambda>k. the (map_of d k)) (filter (\<lambda>k. k \<noteq> ''color'') ks),
                   suffix := suffix v @
                     concat (map (\<lambda>k. '' | '' @ py_format repr_of (the (map_of d k)))
                               (filter (\<lambda>k. k \<noteq> ''color'') ks)),
                   epilog := epilog v @
                     concat (map (\<lambda>k. py_format repr_of (the (map_of d k)) @ ''\<newline>'')
                               (filter (\<lambda>k. k \<noteq> ''color'') ks)),
                   colorize_func :=
                     (if ''color'' \<in> set ks
                      then (case map_of d ''color'' of
                              Some (PyStr c) \<Rightarrow>
                                (case map_of colorize_table c of Some f \<Rightarrow> f | None \<Rightarrow> py_str)
                            | _ \<Rightarrow> py_str)
                      else colorize_func v),
                   opened := (opened v \<or> filter (\<lambda>k. k \<noteq> ''color'') ks \<noteq> [])\<rparr>)"
  using assms(3)
proof (induction ks arbitrary: v)
  case Nil
  then show ?case by simp
next
  case (Cons k ks)
  then have rest: "\<forall>k \<in> set ks. CHR '':'' \<notin> set k \<and> k \<noteq> ''backtrace'' \<and> map_of d k \<noteq> None"
    by simp
  show ?case
  proof (cases "k = ''color''")
    case True
    then have "map_of d ''color'' \<noteq> None"
      using Cons.prems by simp
    then have "get_metadata_key repr_of s address ''color'' v =
           Inr (v\<lparr>colorize_func :=
                  (case map_of d ''color'' of
                     Some (PyStr c) \<Rightarrow> (case map_of colorize_table c of Some f \<Rightarrow> f | None \<Rightarrow> py_str)
                   | _ \<Rightarrow> py_str)\<rparr>)"
      using get_metadata_key_color_stored[OF assms(1,2)] by simp
    then show ?thesis
      using Cons.IH[OF rest] True by simp
  next
    case False
    obtain x where x: "map_of d k = Some x"
      using Cons.prems by auto
    have "get_metadata_key repr_of s address k v =
           Inr (v\<lparr>suffix := suffix v @ '' | '' @ py_format repr_of x,
                   epilog := epilog v @ py_format repr_of x @ ''\<newline>'',
                   out_L := out_L v @ [x],
                   opened := True\<rparr>)"
      using get_metadata_key_plain[OF assms(1) _ _ False x] Cons.prems by simp
    then show ?thesis
      using Cons.IH[OF rest] False x by simp
  qed
qed

lemma values_of_distinct_keys:
  "distinct (map fst d) \<Longrightarrow>
     map (\<lambda>k. the (map_of d k)) (filter P (map fst d)) = map snd (filter (\<lambda>kv. P (fst kv)) d)"
proof (induction d)
  case Nil
  then show ?case by simp
next
  case (Cons p d)
  have other: "map (\<lambda>k. the (map_of (p # d) k)) (filter P (map fst d))
             = map (\<lambda>k. the (map_of d k)) (filter P (map fst d))"
    using Cons.prems by (intro map_cong refl) (force simp: image_iff)
  show ?case
    using Cons other by (cases p) simp
qed

lemma texts_of_distinct_keys:
  assumes "distinct (map fst d)"
  shows "map (\<lambda>k. g (the (map_of d k))) (filter P (map fst d))
           = map (\<lambda>kv. g (snd kv)) (filter (\<lambda>kv. P (fst kv)) d)"
proof -
  have "map (\<lambda>k. g (the (map_of d k))) (filter P (map fst d))
          = map g (map (\<lambda>k. the (map_of d k)) (filter P (map fst d)))"
    by (simp add: comp_def)
  also have "\<dots> = map g (map snd (filter (\<lambda>kv. P (fst kv)) d))"
    by (simp only: values_of_distinct_keys[OF assms])
  also have "\<dots> = map (\<lambda>kv. g (snd kv)) (filter (\<lambda>kv. P (fst kv)) d)"
    by (simp add: comp_def)
  finally show ?thesis .
qed

lemma get_functions_minus_one:
  assumes "meta_cache s address = Some d"
    and "map_of d ''backtrace'' = Some (PyDict b)"
  shows "get_functions s address (Some (- 1)) =
           Inr (Some (filter (\<lambda>f. f \<notin> backtrace_ignore s) (funcs b)))"
  using assms get_functions_loop_unlimited[of "Some (- 1)" "[]" "backtrace_ignore s" "funcs b"]
  by (simp add: get_functions_def)

lemma get_metadata_key_backtrace_minus_one:
  assumes "meta_cache s address = Some d"
    and "map_of d ''backtrace'' = Some (PyDict b)"
  shows "get_metadata_key repr_of s address ''backtrace:-1'' v =
           Inr (v\<lparr>suffix := suffix v @
                     (case filter (\<lambda>f. f \<notin> backtrace_ignore s) (funcs b) of
                        [] \<Rightarrow> '' | filtered''
                      | fl \<Rightarrow> '' | '' @ join '','' fl),
                   epilog := epilog v @ raw b,
                   out_L := out_L v @ [PyList (filter (\<lambda>f. f \<notin> backtrace_ignore s) (funcs b))],
                   opened := True\<rparr>)"
proof -
  have "get_functions s address (Some (- 1)) =
          Inr (Some (filter (\<lambda>f. f \<notin> backtrace_ignore s) (funcs b)))"
    using get_functions_minus_one[OF assms] .
  then show ?thesis
    using assms
    by (simp add: get_metadata_key_def split_key_backtrace_all backtrace_branch_def py_int_minus_one
        split: list.splits)
qed

lemma all_keys_distinct:
  assumes "distinct (map fst d)"
  shows "all_keys d =
           filter (\<lambda>k. k \<noteq> ''backtrace'') (map fst d)
           @ (if map_of d ''backtrace'' = None then [] else [''backtrace:-1''])"
proof -
  have rm: "remove1 ''backtrace'' (map fst d) = filter (\<lambda>k. k \<noteq> ''backtrace'') (map fst d)"
    using assms by (simp add: distinct_remove1_removeAll removeAll_filter_not_eq) (metis)
  have absent: "filter (\<lambda>k. k \<noteq> ''backtrace'') (map fst d) = map fst d" if "''backtrace'' \<notin> fst ` set d"
    using that by (intro filter_True) (force simp: image_iff)
  show ?thesis
    using rm absent by (auto simp: all_keys_def Let_def map_of_eq_None_iff)
qed

text \<open>
  C1 (amended). For an address whose record has no colon in its keys (and holds a
  backtrace under \<open>backtrace\<close> and a palette name under \<open>color\<close>, when it has these
  keys), \<open>get_metadata\<close> with \<open>"all"\<close> returns: a list with the values of the fields
  other than \<open>color\<close> and \<open>backtrace\<close> in insertion order, followed, when the record has
  a backtrace, by all its frames that are not ignored; the suffix and the epilog built
  from the same fields in the same order; and, as the function, the palette entry of
  the stored color, or \<open>str\<close> without one. The color contributes no entry and no text,
  and the backtrace comes last wherever it was inserted.
\<close>

theorem get_metadata_all_fields:
  assumes "meta_cache s address = Some d"
    and "distinct (map fst d)"
    and "\<forall>k \<in> set (map fst d). CHR '':'' \<notin> set k"
    and "backtrace_ok d"
    and "color_ok d"
  shows "get_metadata repr_of s address All_str =
           (let plain = filter (\<lambda>kv. fst kv \<noteq> ''color'' \<and> fst kv \<noteq> ''backtrace'') d
            in Inr (Some (map snd plain
                          @ (case map_of d ''backtrace'' of
                               Some (PyDict b) \<Rightarrow>
                                 [PyList (filter (\<lambda>f. f \<notin> backtrace_ignore s) (funcs b))]
                             | _ \<Rightarrow> [])),
                    (if plain = [] \<and> map_of d ''backtrace'' = None then []
                     else concat (map (\<lambda>kv. '' | '' @ py_format repr_of (snd kv)) plain)
                          @ (case map_of d ''backtrace'' of
                               Some (PyDict b) \<Rightarrow>
                                 (case filter (\<lambda>f. f \<notin> backtrace_ignore s) (funcs b) of
                                    [] \<Rightarrow> '' | filtered''
                                  | fl \<Rightarrow> '' | '' @ join '','' fl)
                             | _ \<Rightarrow> [])
                          @ '' |''),
                    concat (map (\<lambda>kv. py_format repr_of (snd kv) @ ''\<newline>'') plain)
                    @ (case map_of d ''backtrace'' of Some (PyDict b) \<Rightarrow> raw b | _ \<Rightarrow> []),
                    (case map_of d ''color'' of
                       Some (PyStr c) \<Rightarrow>
                         (case map_of colorize_table c of Some f \<Rightarrow> f | None \<Rightarrow> py_str)
                     | _ \<Rightarrow> py_str)))"
proof -
  let ?v0 = "\<lparr>out_L = [], suffix = [], epilog = [], colorize_func = py_str, opened = False\<rparr>"
  let ?keys = "filter (\<lambda>k. k \<noteq> ''backtrace'') (map fst d)"
  let ?ks = "filter (\<lambda>k. k \<noteq> ''color'' \<and> k \<noteq> ''backtrace'') (map fst d)"
  let ?plain = "filter (\<lambda>kv. fst kv \<noteq> ''color'' \<and> fst kv \<noteq> ''backtrace'') d"
  let ?col = "case map_of d ''color'' of
                Some (PyStr c) \<Rightarrow> (case map_of colorize_table c of Some f \<Rightarrow> f | None \<Rightarrow> py_str)
              | _ \<Rightarrow> py_str"
  have keys: "\<forall>k \<in> set ?keys. CHR '':'' \<notin> set k \<and> k \<noteq> ''backtrace'' \<and> map_of d k \<noteq> None"
    using assms(3) by (auto simp: map_of_eq_None_iff)
  have ks: "filter (\<lambda>k. k \<noteq> ''color'') ?keys = ?ks"
    unfolding filter_filter by (intro filter_cong refl) auto
  have vals: "map (\<lambda>k. the (map_of d k)) ?ks = map snd ?plain"
    using values_of_distinct_keys[OF assms(2), of "\<lambda>k. k \<noteq> ''color'' \<and> k \<noteq> ''backtrace''"] .
  have sfx: "map (\<lambda>k. '' | '' @ py_format repr_of (the (map_of d k))) ?ks
               = map (\<lambda>kv. '' | '' @ py_format repr_of (snd kv)) ?plain"
    using texts_of_distinct_keys[OF assms(2), of "\<lambda>x. '' | '' @ py_format repr_of x"
        "\<lambda>k. k \<noteq> ''color'' \<and> k \<noteq> ''backtrace''"] .
  have epi: "map (\<lambda>k. py_format repr_of (the (map_of d k)) @ ''\<newline>'') ?ks
               = map (\<lambda>kv. py_format repr_of (snd kv) @ ''\<newline>'') ?plain"
    using texts_of_distinct_keys[OF assms(2), of "\<lambda>x. py_format repr_of x @ ''\<newline>''"
        "\<lambda>k. k \<noteq> ''color'' \<and> k \<noteq> ''backtrace''"] .
  have "(map (\<lambda>k. the (map_of d k)) ?ks = []) = (map snd ?plain = [])"
    by (simp only: vals)
  then have empty: "(?ks = []) = (?plain = [])"
    by (simp only: map_is_Nil_conv)
  have col: "?col = py_str" if "''color'' \<notin> fst ` set d"
  proof -
    have "map_of d ''color'' = None"
      using that by (simp add: map_of_eq_None_iff)
    then show ?thesis by simp
  qed
  define v1 where "v1 = \<lparr>out_L = map snd ?plain,
                          suffix = concat (map (\<lambda>kv. '' | '' @ py_format repr_of (snd kv)) ?plain),
                          epilog = concat (map (\<lambda>kv. py_format repr_of (snd kv) @ ''\<newline>'') ?plain),
                          colorize_func = ?col,
                          opened = (?plain \<noteq> [])\<rparr>"
  have loop: "get_metadata_loop repr_of s address ?keys ?v0 = Inr v1"
    unfolding get_metadata_loop_stored_keys[OF assms(1) assms(5) keys, of repr_of ?v0]
    unfolding ks vals sfx epi empty v1_def
    using col by simp
  show ?thesis
  proof (cases "map_of d ''backtrace''")
    case None
    then have "all_keys d = ?keys"
      using all_keys_distinct[OF assms(2)] by simp
    then show ?thesis
      using assms(1) loop None by (simp add: get_metadata_def v1_def Let_def)
  next
    case (Some x)
    then obtain b where b: "x = PyDict b"
      using assms(4) by (auto simp: backtrace_ok_def split: pyval.splits)
    have bt: "map_of d ''backtrace'' = Some (PyDict b)"
      using Some b by simp
    have "all_keys d = ?keys @ [''backtrace:-1'']"
      using all_keys_distinct[OF assms(2)] Some by simp
    then have "get_metadata_loop repr_of s address (all_keys d) ?v0 =
                 get_metadata_key repr_of s address ''backtrace:-1'' v1"
      using loop by (simp add: get_metadata_loop_append split: sum.splits)
    then show ?thesis
      using assms(1) bt get_metadata_key_backtrace_minus_one[OF assms(1) bt, of repr_of v1]
      by (simp add: get_metadata_def v1_def Let_def)
  qed
qed

lemma state_0x20_tagged_eq:
  "state_0x20_tagged =
     state_0x20\<lparr>meta_cache := [32 \<mapsto> [(''backtrace'', PyDict backtrace_0x20), (''tag'', PyStr ''hello'')]]\<rparr>"
  by (simp add: state_0x20_tagged_def add_metadata_def state_0x20_def)

lemma state_0x20_colored_eq:
  "state_0x20_colored =
     state_0x20\<lparr>meta_cache := [32 \<mapsto> [(''backtrace'', PyDict backtrace_0x20), (''tag'', PyStr ''hello''),
                                         (''color'', PyStr ''green'')]]\<rparr>"
  by (simp add: state_0x20_colored_def state_0x20_tagged_eq add_metadata_def state_0x20_def
      colorize_table_def)

lemma get_metadata_all_tagged:
  "get_metadata sample_repr state_0x20_tagged 32 All_str =
     Inr (Some [PyStr ''hello'', PyList [''f1'', ''f3'']],
          '' | hello | f1,f3 |'', ''hello\<newline>#0 f1 #1 f2 #2 f3'', py_str)"
  by (simp add: state_0x20_tagged_eq state_0x20_def backtrace_0x20_def get_metadata_def all_keys_def
      get_metadata_key_def split_key_def backtrace_branch_def get_functions_def py_int_minus_one
      py_format_def)

text \<open>
  C1 as stated fails on the order: with the backtrace added before the tag, \<open>"all"\<close>
  gives the tag first and the backtrace last.
\<close>

theorem get_metadata_all_order_counterexample:
  "meta_cache state_0x20_tagged 32
     = Some [(''backtrace'', PyDict backtrace_0x20), (''tag'', PyStr ''hello'')]
   \<and> get_metadata sample_repr state_0x20_tagged 32 All_str =
       Inr (Some [PyStr ''hello'', PyList [''f1'', ''f3'']],
            '' | hello | f1,f3 |'', ''hello\<newline>#0 f1 #1 f2 #2 f3'', py_str)
   \<and> all_fields_spec (backtrace_ignore state_0x20_tagged)
         [(''backtrace'', PyDict backtrace_0x20), (''tag'', PyStr ''hello'')]
       = [PyList [''f1'', ''f3''], PyStr ''hello'']
   \<and> [PyStr ''hello'', PyList [''f1'', ''f3'']] \<noteq> [PyList [''f1'', ''f3''], PyStr ''hello'']"
  using get_metadata_all_tagged
  by (simp add: state_0x20_tagged_eq state_0x20_def all_fields_spec_def resolve_spec_def backtrace_0x20_def)

theorem get_metadata_all_fields_witness:
  "meta_cache state_0x20_colored 32
     = Some [(''backtrace'', PyDict backtrace_0x20), (''tag'', PyStr ''hello''), (''color'', PyStr ''green'')]
   \<and> get_metadata sample_repr state_0x20_colored 32 All_str =
       Inr (Some [PyStr ''hello'', PyList [''f1'', ''f3'']],
            '' | hello | f1,f3 |'', ''hello\<newline>#0 f1 #1 f2 #2 f3'', pu_green)"
proof -
  let ?d = "[(''backtrace'', PyDict backtrace_0x20), (''tag'', PyStr ''hello''), (''color'', PyStr ''green'')]"
  have a: "meta_cache state_0x20_colored 32 = Some ?d"
    by (simp add: state_0x20_colored_eq)
  have b: "distinct (map fst ?d)"
    by simp
  have c: "\<forall>k \<in> set (map fst ?d). CHR '':'' \<notin> set k"
    by simp
  have d: "backtrace_ok ?d"
    by (simp add: backtrace_ok_def)
  have e: "color_ok ?d"
    by (simp add: color_ok_def colorize_table_def)
  have f: "backtrace_ignore state_0x20_colored = {''f2''}"
    by (simp add: state_0x20_colored_eq state_0x20_def)
  show ?thesis
    using a get_metadata_all_fields[OF a b c d e, of sample_repr]
    by (simp add: f backtrace_0x20_def py_format_def colorize_table_def)
qed

subsection \<open>Adding, then querying\<close>

lemma add_metadata_plain:
  assumes "key \<noteq> ''backtrace''" and "key \<noteq> ''color''"
  shows "add_metadata captured address key val s =
           ([], s\<lparr>meta_cache := (meta_cache s)(address \<mapsto>
                  AList.update key (case val of None \<Rightarrow> PyNone | Some t \<Rightarrow> PyStr t)
                    (case meta_cache s address of None \<Rightarrow> [] | Some d \<Rightarrow> d))\<rparr>)"
  using assms by (simp add: add_metadata_def)

text \<open>
  C3 (amended). For every address, every value and every key other than \<open>color\<close> and
  \<open>backtrace\<close> that holds no colon, \<open>add_metadata\<close> reports nothing, and afterwards
  \<open>get_metadata\<close> for that key alone returns the list whose sole entry is the value.
\<close>

theorem add_then_get_metadata:
  assumes "key \<noteq> ''color''" and "key \<noteq> ''backtrace''" and "CHR '':'' \<notin> set key"
  shows "fst (add_metadata captured address key val s) = []
       \<and> get_metadata repr_of (snd (add_metadata captured address key val s)) address (Keys [key]) =
           Inr (Some [case val of None \<Rightarrow> PyNone | Some t \<Rightarrow> PyStr t],
                '' | '' @ (case val of None \<Rightarrow> ''None'' | Some t \<Rightarrow> t) @ '' |'',
                (case val of None \<Rightarrow> ''None'' | Some t \<Rightarrow> t) @ ''\<newline>'',
                py_str)"
proof -
  let ?x = "case val of None \<Rightarrow> PyNone | Some t \<Rightarrow> PyStr t"
  let ?d = "AList.update key ?x (case meta_cache s address of None \<Rightarrow> [] | Some d \<Rightarrow> d)"
  let ?s' = "snd (add_metadata captured address key val s)"
  have add: "add_metadata captured address key val s
               = ([], s\<lparr>meta_cache := (meta_cache s)(address \<mapsto> ?d)\<rparr>)"
    using add_metadata_plain[OF assms(2) assms(1)] .
  have mc: "meta_cache ?s' address = Some ?d"
    by (simp add: add)
  have look: "map_of ?d key = Some ?x"
    by (simp add: update_conv')
  have fmt: "py_format repr_of ?x = (case val of None \<Rightarrow> ''None'' | Some t \<Rightarrow> t)"
    by (simp add: py_format_def split: option.splits)
  have step: "get_metadata_key repr_of ?s' address key v =
           Inr (v\<lparr>suffix := suffix v @ '' | '' @ py_format repr_of ?x,
                   epilog := epilog v @ py_format repr_of ?x @ ''\<newline>'',
                   out_L := out_L v @ [?x],
                   opened := True\<rparr>)" for v
    using get_metadata_key_plain[OF mc assms(3) assms(2) assms(1) look] .
  have "get_metadata repr_of ?s' address (Keys [key]) =
           Inr (Some [?x], '' | '' @ py_format repr_of ?x @ '' |'', py_format repr_of ?x @ ''\<newline>'', py_str)"
    by (simp add: get_metadata_def mc step)
  then show ?thesis
    using add fmt by simp
qed

theorem add_then_get_metadata_witness:
  "''tag'' \<noteq> ''color'' \<and> ''tag'' \<noteq> ''backtrace'' \<and> CHR '':'' \<notin> set ''tag''
   \<and> fst (add_metadata backtrace_0x20 16 ''tag'' (Some ''service_user struct'') state_0x10_green) = []
   \<and> get_metadata sample_repr
        (snd (add_metadata backtrace_0x20 16 ''tag'' (Some ''service_user struct'') state_0x10_green))
        16 (Keys [''tag'']) =
       Inr (Some [PyStr ''service_user struct''],
            '' | service_user struct |'', ''service_user struct\<newline>'', py_str)"
proof -
  have a: "''tag'' \<noteq> ''color''" and b: "''tag'' \<noteq> ''backtrace''" and c: "CHR '':'' \<notin> set ''tag''"
    by simp_all
  show ?thesis
    using a b c
      add_then_get_metadata[OF a b c, of backtrace_0x20 16 "Some ''service_user struct''"
        state_0x10_green sample_repr]
    by simp
qed

text \<open>
  C3 as stated fails for a key with a colon: \<open>get_metadata\<close> splits \<open>a:b\<close> and looks
  for the key \<open>a\<close>, which the record does not have.
\<close>

theorem add_then_get_metadata_colon_counterexample:
  "fst (add_metadata backtrace_0x20 16 ''a:b'' (Some ''v'') empty_state) = []
   \<and> meta_cache (snd (add_metadata backtrace_0x20 16 ''a:b'' (Some ''v'') empty_state)) 16
       = Some [(''a:b'', PyStr ''v'')]
   \<and> get_metadata sample_repr
        (snd (add_metadata backtrace_0x20 16 ''a:b'' (Some ''v'') empty_state)) 16 (Keys [''a:b'']) =
       Inr (Some [PyNone], '' | N/A |'', [CHR 0x27] @ ''a'' @ [CHR 0x27] @ '' key not found in metadata database\<newline>'', py_str)
   \<and> [PyNone] \<noteq> [PyStr ''v'']"
  by (simp add: add_metadata_def empty_state_def get_metadata_def get_metadata_key_def split_key_def)

subsection \<open>Querying the color alone\<close>

text \<open>
  C9 (amended). For every address that has a record, \<open>get_metadata\<close> for \<open>color\<close> alone
  returns the empty list, the empty suffix and the empty epilog; the function returned
  is \<open>str\<close> when the record has no color and the palette entry when it has one.
\<close>

theorem get_metadata_color_only:
  assumes "meta_cache s address = Some d"
  shows "(map_of d ''color'' = None \<longrightarrow>
            get_metadata repr_of s address (Keys [''color'']) = Inr (Some [], [], [], py_str))
       \<and> (\<forall>c f. map_of d ''color'' = Some (PyStr c) \<and> map_of colorize_table c = Some f \<longrightarrow>
            get_metadata repr_of s address (Keys [''color'']) = Inr (Some [], [], [], f))"
  using assms
  by (simp add: get_metadata_def get_metadata_key_color_absent get_metadata_key_color_present)

theorem get_metadata_color_only_witness:
  "meta_cache state_0x10_green 16 = Some [(''color'', PyStr ''green'')]
   \<and> map_of colorize_table ''green'' = Some pu_green
   \<and> get_metadata sample_repr state_0x10_green 16 (Keys [''color'']) = Inr (Some [], [], [], pu_green)
   \<and> meta_cache state_0x20 32 = Some [(''backtrace'', PyDict backtrace_0x20)]
   \<and> get_metadata sample_repr state_0x20 32 (Keys [''color'']) = Inr (Some [], [], [], py_str)"
proof -
  have a: "meta_cache state_0x10_green 16 = Some [(''color'', PyStr ''green'')]"
    by (simp add: state_0x10_green_eq)
  have b: "map_of colorize_table ''green'' = Some pu_green"
    by (simp add: colorize_table_def)
  have c: "meta_cache state_0x20 32 = Some [(''backtrace'', PyDict backtrace_0x20)]"
    by (simp add: state_0x20_def)
  show ?thesis
    using a b c
      get_metadata_color_only[OF a, of sample_repr]
      get_metadata_color_only[OF c, of sample_repr]
    by simp
qed

text \<open>
  C9 as stated fails for an address without a record: the list is \<open>None\<close>, not empty,
  and the epilog is the not-found message.
\<close>

theorem get_metadata_color_only_counterexample:
  "meta_cache empty_state 16 = None
   \<and> get_metadata sample_repr empty_state 16 (Keys [''color'']) =
       Inr (None, [], ''chunk address not found in metadata database\<newline>'', py_str)
   \<and> (None :: pyval list option) \<noteq> Some []"
  by (simp add: empty_state_def get_metadata_def)

subsection \<open>The ignore set over a session\<close>

lemma add_metadata_ignore: "backtrace_ignore (snd (add_metadata captured address key val s)) = backtrace_ignore s"
  by (simp add: add_metadata_def Let_def)

lemma delete_metadata_ignore: "backtrace_ignore (delete_metadata address s) = backtrace_ignore s"
  by (simp add: delete_metadata_def)

lemma configure_metadata_ignore:
  "backtrace_ignore s \<subseteq> backtrace_ignore (snd (configure_metadata feature key vals s))"
  by (auto simp: configure_metadata_def)

lemma save_metadata_ignore: "backtrace_ignore (save_metadata_to_file filename s) = backtrace_ignore s"
  by (simp add: save_metadata_to_file_def)

lemma invoke_ignore:
  assumes "\<not> runs_load a"
  shows "backtrace_ignore s \<subseteq> backtrace_ignore (snd (invoke dbg a s))"
proof (cases "action a")
  case None
  then show ?thesis
    using assms by (auto simp: invoke_def runs_load_def save_metadata_ignore)
next
  case (Some act)
  show ?thesis
  proof (cases act)
    case (Add t key val)
    then show ?thesis
      using Some by (simp add: invoke_def add_metadata_ignore split: list.splits)
  next
    case (Del t)
    then show ?thesis
      using Some by (simp add: invoke_def delete_metadata_ignore split: list.splits)
  next
    case (List address_arg metadata_arg)
    then show ?thesis
      using Some by (simp add: invoke_def split: option.splits)
  next
    case (Config feature key vals)
    then show ?thesis
      using Some by (simp add: invoke_def configure_metadata_ignore)
  qed
qed

lemma run_ignore:
  "\<forall>c \<in> set cs. \<not> runs_load (snd c) \<Longrightarrow> backtrace_ignore s \<subseteq> backtrace_ignore (run cs s)"
proof (induction cs arbitrary: s)
  case Nil
  then show ?case by simp
next
  case (Cons c cs)
  have "backtrace_ignore s \<subseteq> backtrace_ignore (snd (invoke (fst c) (snd c) s))"
    using Cons.prems by (simp add: invoke_ignore)
  moreover have "backtrace_ignore (snd (invoke (fst c) (snd c) s))
                   \<subseteq> backtrace_ignore (run cs (snd (invoke (fst c) (snd c) s)))"
    using Cons.prems by (intro Cons.IH) simp
  ultimately show ?case by simp
qed

text \<open>
  C8 (amended). Over every sequence of commands none of which loads a snapshot,
  \<open>backtrace_ignore\<close> only grows: every name in it before the sequence is in it after.
  Configuring names that are all present already changes nothing. (Loading a snapshot
  replaces the set by the saved one.)
\<close>

theorem backtrace_ignore_grows_without_load:
  "((\<forall>c \<in> set cs. \<not> runs_load (snd c)) \<longrightarrow> backtrace_ignore s \<subseteq> backtrace_ignore (run cs s))
   \<and> (set vals \<subseteq> backtrace_ignore s \<longrightarrow>
        configure_metadata ''ignore'' ''backtrace'' vals s = ([], s))"
proof -
  have "s\<lparr>backtrace_ignore := backtrace_ignore s \<union> set vals\<rparr> = s"
    if "set vals \<subseteq> backtrace_ignore s"
    using that by (simp add: Un_absorb2)
  then show ?thesis
    using run_ignore[of cs s] by (simp add: configure_metadata_def)
qed

lemma run_ignore_save_ignore: "run [cmd_ignore_f1, cmd_save, cmd_ignore_f2] empty_state =
   \<lparr>meta_cache = Map.empty, backtrace_ignore = {''f1'', ''f2''},
     files = [METADATA_DB \<mapsto> (Map.empty, {''f1''})]\<rparr>"
  by (auto simp: cmd_ignore_f1_def cmd_save_def cmd_ignore_f2_def empty_state_def invoke_def
      configure_metadata_def save_metadata_to_file_def)

text \<open>
  C8 as stated fails with \<open>-L\<close>: after ignoring \<open>f1\<close>, saving, and ignoring \<open>f2\<close>,
  loading the snapshot removes \<open>f2\<close> from \<open>backtrace_ignore\<close>.
\<close>

theorem load_shrinks_backtrace_ignore_counterexample:
  "''f2'' \<in> backtrace_ignore (run [cmd_ignore_f1, cmd_save, cmd_ignore_f2] empty_state)
   \<and> ''f2'' \<notin> backtrace_ignore (run [cmd_ignore_f1, cmd_save, cmd_ignore_f2, cmd_load] empty_state)"
  by (simp add: cmd_ignore_f1_def cmd_save_def cmd_ignore_f2_def cmd_load_def empty_state_def invoke_def
      configure_metadata_def save_metadata_to_file_def load_metadata_from_file_def)

theorem backtrace_ignore_grows_without_load_witness:
  "\<not> runs_load (snd cmd_ignore_f1) \<and> \<not> runs_load (snd cmd_save) \<and> \<not> runs_load (snd cmd_ignore_f2)
   \<and> backtrace_ignore empty_state = {}
   \<and> backtrace_ignore (run [cmd_ignore_f1, cmd_save, cmd_ignore_f2] empty_state) = {''f1'', ''f2''}
   \<and> set [''f2''] \<subseteq> backtrace_ignore state_0x20
   \<and> configure_metadata ''ignore'' ''backtrace'' [''f2''] state_0x20 = ([], state_0x20)"
proof -
  have a: "\<forall>c \<in> set [cmd_ignore_f1, cmd_save, cmd_ignore_f2]. \<not> runs_load (snd c)"
    by (simp add: runs_load_def cmd_ignore_f1_def cmd_save_def cmd_ignore_f2_def)
  have b: "set [''f2''] \<subseteq> backtrace_ignore state_0x20"
    by (simp add: state_0x20_def)
  have c: "backtrace_ignore empty_state = {}"
    by (simp add: empty_state_def)
  show ?thesis
    using a b c run_ignore_save_ignore
      backtrace_ignore_grows_without_load[of "[cmd_ignore_f1, cmd_save, cmd_ignore_f2]" empty_state "[]"]
      backtrace_ignore_grows_without_load[of "[]" state_0x20 "[''f2'']"]
    by simp
qed

subsection \<open>Every reachable state is well formed\<close>

text \<open>
  The hypotheses on records in the properties of \<open>get_metadata\<close> above hold in every
  state a session can reach from the empty database.
\<close>

lemma record_ok_empty: "record_ok []"
  by (simp add: record_ok_def color_ok_def backtrace_ok_def)

lemma record_ok_update:
  assumes "record_ok d"
    and "key = ''color'' \<longrightarrow> (\<exists>c. x = PyStr c \<and> map_of colorize_table c \<noteq> None)"
    and "key = ''backtrace'' \<longrightarrow> (\<exists>b. x = PyDict b)"
  shows "record_ok (AList.update key x d)"
proof -
  have "distinct (map fst (AList.update key x d))"
    using assms(1) by (simp add: record_ok_def distinct_update)
  moreover have "color_ok (AList.update key x d)"
    using assms(1,2) by (auto simp: record_ok_def color_ok_def update_conv')
  moreover have "backtrace_ok (AList.update key x d)"
    using assms(1,3) by (auto simp: record_ok_def backtrace_ok_def update_conv')
  ultimately show ?thesis by (simp add: record_ok_def)
qed

lemma cache_ok_update:
  "cache_ok mc \<Longrightarrow> record_ok d \<Longrightarrow> cache_ok (mc(address \<mapsto> d))"
  by (simp add: cache_ok_def)

lemma cache_ok_current:
  "cache_ok mc \<Longrightarrow> record_ok (case mc address of None \<Rightarrow> [] | Some d \<Rightarrow> d)"
  by (auto simp: cache_ok_def record_ok_empty split: option.splits)

lemma add_metadata_ok:
  assumes "state_ok s"
  shows "state_ok (snd (add_metadata captured address key val s))"
proof -
  let ?d = "case meta_cache s address of None \<Rightarrow> [] | Some d \<Rightarrow> d"
  have cur: "record_ok ?d"
    using assms by (simp add: state_ok_def cache_ok_current)
  have store: "state_ok (s\<lparr>meta_cache := (meta_cache s)(address \<mapsto> AList.update key x ?d)\<rparr>)"
    if "key = ''color'' \<longrightarrow> (\<exists>c. x = PyStr c \<and> map_of colorize_table c \<noteq> None)"
      and "key = ''backtrace'' \<longrightarrow> (\<exists>b. x = PyDict b)" for x
    using assms record_ok_update[OF cur that] by (simp add: state_ok_def cache_ok_update)
  show ?thesis
  proof (cases "key = ''backtrace''")
    case True
    then show ?thesis
      using store[of "PyDict captured"] by (simp add: add_metadata_def)
  next
    case nb: False
    show ?thesis
    proof (cases "key = ''color''")
      case True
      show ?thesis
      proof (cases val)
        case None
        then show ?thesis using assms True by (simp add: add_metadata_def)
      next
        case (Some c)
        show ?thesis
        proof (cases "map_of colorize_table c")
          case None
          then show ?thesis using assms True Some by (simp add: add_metadata_def)
        next
          case (Some f)
          then show ?thesis
            using store[of "PyStr c"] True \<open>val = Some c\<close> by (simp add: add_metadata_def)
        qed
      qed
    next
      case False
      then show ?thesis
        using nb store[of "case val of None \<Rightarrow> PyNone | Some t \<Rightarrow> PyStr t"]
        by (simp add: add_metadata_def)
    qed
  qed
qed

lemma delete_metadata_ok: "state_ok s \<Longrightarrow> state_ok (delete_metadata address s)"
  by (simp add: delete_metadata_def state_ok_def cache_ok_def)

lemma configure_metadata_ok: "state_ok s \<Longrightarrow> state_ok (snd (configure_metadata feature key vals s))"
  by (simp add: configure_metadata_def state_ok_def)

lemma save_metadata_ok: "state_ok s \<Longrightarrow> state_ok (save_metadata_to_file filename s)"
  by (simp add: save_metadata_to_file_def state_ok_def)

lemma load_metadata_ok:
  "state_ok s \<Longrightarrow> load_metadata_from_file filename s = Inr s' \<Longrightarrow> state_ok s'"
  by (fastforce simp: load_metadata_from_file_def state_ok_def split: option.splits)

lemma invoke_ok:
  assumes "state_ok s"
  shows "state_ok (snd (invoke dbg a s))"
proof (cases "action a")
  case None
  then show ?thesis
    using assms save_metadata_ok[OF assms] load_metadata_ok[OF assms]
    by (auto simp: invoke_def split: sum.splits)
next
  case (Some act)
  show ?thesis
  proof (cases act)
    case (Add t key val)
    then show ?thesis
      using Some assms by (simp add: invoke_def add_metadata_ok split: list.splits)
  next
    case (Del t)
    then show ?thesis
      using Some assms by (simp add: invoke_def delete_metadata_ok split: list.splits)
  next
    case (List address_arg metadata_arg)
    then show ?thesis
      using Some assms by (simp add: invoke_def split: option.splits)
  next
    case (Config feature key vals)
    then show ?thesis
      using Some assms by (simp add: invoke_def configure_metadata_ok)
  qed
qed

lemma run_ok: "state_ok s \<Longrightarrow> state_ok (run cs s)"
  by (induction cs arbitrary: s) (simp_all add: invoke_ok)

lemma empty_state_ok: "state_ok empty_state"
  by (simp add: state_ok_def cache_ok_def empty_state_def)

lemma reachable_records_well_formed:
  assumes "meta_cache (run cs empty_state) address = Some d"
  shows "distinct (map fst d) \<and> color_ok d \<and> backtrace_ok d"
  using run_ok[OF empty_state_ok, of cs] assms
  by (simp add: state_ok_def cache_ok_def record_ok_def)

end
